theory Spec2Isabelle
  imports Main "HOL-Library.Sublist"
begin

section \<open>JavaScript values used by the build configuration\<close>

text \<open>
  A plain JavaScript object with string keys is an association list in property order
  (insertion order: none of the keys used here is an integer index). An object literal
  never holds one key twice.
\<close>

type_synonym 'v js_object = "(string \<times> 'v) list"

definition Object_entries :: "'v js_object \<Rightarrow> (string \<times> 'v) list" where
  "Object_entries obj = obj"

definition Object_keys :: "'v js_object \<Rightarrow> string list" where
  "Object_keys obj = map fst obj"

text \<open>
  \<^verbatim>\<open>{ ...obj, [k]: v }\<close>: the own properties of \<open>obj\<close> are copied in order, then
  \<open>k\<close> is written; a key that is already there keeps its position and takes the new value.
\<close>

fun spread_set :: "string \<Rightarrow> 'v \<Rightarrow> 'v js_object \<Rightarrow> 'v js_object" where
  "spread_set k v [] = [(k, v)]"
| "spread_set k v ((k', v') # rest) =
     (if k' = k then (k, v) # rest else (k', v') # spread_set k v rest)"

text \<open>\<^verbatim>\<open>Array.prototype.reduce(f, init)\<close> runs left to right.\<close>

definition reduce :: "('b \<Rightarrow> 'a \<Rightarrow> 'b) \<Rightarrow> 'b \<Rightarrow> 'a list \<Rightarrow> 'b" where
  "reduce f init xs = foldl f init xs"

text \<open>\<^verbatim>\<open>Array.prototype.join(sep)\<close>.\<close>

fun join :: "string \<Rightarrow> string list \<Rightarrow> string" where
  "join sep [] = []"
| "join sep [x] = x"
| "join sep (x # y # ys) = x @ sep @ join sep (y # ys)"

datatype js_error = ReferenceError string | TypeError string | Error string

text \<open>
  Modelled from the spec: \<^verbatim>\<open>path.dirname\<close> belongs to the Node library, not to the
  repository; the spec has the type declarations "copied into the same directory" as the
  module, and the source computes that directory with it. POSIX rules, as Node documents
  them: trailing slashes are ignored, the result is the path up to the slash before the
  last segment, \<open>.\<close> when there is no such slash and \<open>/\<close> for a rooted path
  with one segment; the first character is never taken for that slash, and a path of two
  leading slashes keeps both.
\<close>

definition pathLib_dirname :: "string \<Rightarrow> string" where
  "pathLib_dirname path =
     (case path of
        [] \<Rightarrow> ''.''
      | c # body \<Rightarrow>
          (case dropWhile (\<lambda>x. x \<noteq> CHR ''/'') (dropWhile (\<lambda>x. x = CHR ''/'') (rev body)) of
             [] \<Rightarrow> (if c = CHR ''/'' then ''/'' else ''.'')
           | s # rest \<Rightarrow> (if c = CHR ''/'' \<and> rest = [] then ''//'' else c # rev rest)))"

section \<open>The module-level constants of rollup-common.js\<close>

text \<open>
  \<^verbatim>\<open>const CHECKSIZE = !!process.env.CHECKSIZE\<close>: an environment variable is absent or a
  string, and a string is truthy when it is not empty.
\<close>

record environment =
  process_env_CHECKSIZE :: "string option"

definition CHECKSIZE :: "environment \<Rightarrow> bool" where
  "CHECKSIZE env = (case process_env_CHECKSIZE env of None \<Rightarrow> False | Some s \<Rightarrow> s \<noteq> [])"



definition reservedProperties :: "string list" where
  "reservedProperties =
     [''_$litType$'', ''_$litDirective$'', ''_value'', ''_setValue'', ''_resolveValue'']"

definition crossPackagePropertyMangles :: "string js_object" where
  "crossPackagePropertyMangles =
     [(''_createElement'', ''A''),
      (''_endNode'', ''B''),
      (''_startNode'', ''C''),
      (''_parts'', ''E''),
      (''_directive'', ''F''),
      (''_setEndNode'', ''G''),
      (''_template'', ''H''),
      (''_constructor'', ''I''),
      (''_name'', ''J''),
      (''_strings'', ''K''),
      (''_commitValue'', ''L'')]"

section \<open>The descriptors built by litRollupConfig\<close>

text \<open>
  The name cache is one mutable object that both terser plugins hold a reference to, so
  it lives in a store and the options carry its address.
\<close>

record props_cache =
  props :: "string js_object"

record name_cache =
  nameCache_props :: props_cache

type_synonym ref = nat

record heap =
  cells :: "ref \<Rightarrow> name_cache option"
  next_ref :: ref

definition alloc :: "name_cache \<Rightarrow> heap \<Rightarrow> ref \<times> heap" where
  "alloc v h = (next_ref h, h\<lparr>cells := (cells h)(next_ref h \<mapsto> v), next_ref := Suc (next_ref h)\<rparr>)"

datatype comments_option = CommentsFalse | CommentsString string

text \<open>The only regular expression of the file is \<^verbatim>\<open>/^_/\<close>: a literal anchored at the start.\<close>

datatype regex = StartsWith string

fun regex_test :: "regex \<Rightarrow> string \<Rightarrow> bool" where
  "regex_test (StartsWith p) s = prefix p s"

record compress_options =
  unsafe :: bool
  passes :: nat

record output_options =
  comments :: comments_option
  inline_script :: bool

record mangle_properties =
  regex :: regex
  reserved :: "string list"
  debug :: bool

record mangle_options =
  properties :: mangle_properties

record terser_options =
  warnings :: bool
  ecma :: nat
  compress :: compress_options
  terser_output :: output_options
  nameCache :: ref
  mangle :: mangle_options

record copy_target =
  src :: string
  dest :: string

datatype plugin =
    Virtual "string js_object"
  | Terser terser_options
  | SkipBundleOutput
  | Replace "string js_object"
  | Sourcemaps
  | Summary
  | Copy "copy_target list"

datatype stage_input = InputFile string | InputFiles "string list"

record output_descriptor =
  output_file :: "string option"
  output_dir :: "string option"
  format :: string
  preserveModules :: "bool option"
  sourcemap :: "bool option"

record stage =
  input :: stage_input
  rollup_output :: output_descriptor
  external :: "string list"
  treeshake :: "bool option"
  plugins :: "plugin list"

text \<open>The argument of the exported function: nothing, \<^verbatim>\<open>null\<close>, or an options object.\<close>

record config_options =
  arg_entryPoints :: "string list option"
  arg_external :: "string list option"

datatype js_argument = JsUndefined | JsNull | JsObject config_options

definition nameCache_initial :: name_cache where
  "nameCache_initial =
     \<lparr>nameCache_props =
        \<lparr>props = reduce (\<lambda>obj (name, val). spread_set (''$'' @ name) val obj) []
                   (Object_entries crossPackagePropertyMangles)\<rparr>\<rparr>"

definition nameCacheSeederInfile :: string where
  "nameCacheSeederInfile = ''name-cache-seeder-virtual-input.js''"

definition nameCacheSeederOutfile :: string where
  "nameCacheSeederOutfile = ''name-cache-seeder-throwaway-output.js''"

definition nameCacheSeederContents :: "string list \<Rightarrow> string" where
  "nameCacheSeederContents entryPoints =
     join [CHR 0x0A]
       (map (\<lambda>name. ''import './development/'' @ name @ ''.js';'') entryPoints @
        map (\<lambda>name. ''console.log(window.'' @ name @ '');'')
          (Object_keys crossPackagePropertyMangles))"

definition terserOptions :: "environment \<Rightarrow> ref \<Rightarrow> terser_options" where
  "terserOptions env cache =
     \<lparr>warnings = True,
      ecma = 2017,
      compress = \<lparr>unsafe = True, passes = 2\<rparr>,
      terser_output =
        \<lparr>comments = (if CHECKSIZE env then CommentsFalse else CommentsString ''some''),
         inline_script = False\<rparr>,
      nameCache = cache,
      mangle = \<lparr>properties =
        \<lparr>regex = StartsWith ''_'', reserved = reservedProperties, debug = False\<rparr>\<rparr>\<rparr>"

definition seeder_stage :: "environment \<Rightarrow> ref \<Rightarrow> string list \<Rightarrow> string list \<Rightarrow> stage" where
  "seeder_stage env cache entryPoints ext =
     \<lparr>input = InputFile nameCacheSeederInfile,
      rollup_output = \<lparr>output_file = Some nameCacheSeederOutfile, output_dir = None, format = ''esm'',
                       preserveModules = None, sourcemap = None\<rparr>,
      external = ext,
      treeshake = Some False,
      plugins =
        [Virtual [(nameCacheSeederInfile, nameCacheSeederContents entryPoints)],
         Terser (terserOptions env cache),
         SkipBundleOutput]\<rparr>"

definition bundle_stage :: "environment \<Rightarrow> ref \<Rightarrow> string list \<Rightarrow> string list \<Rightarrow> stage" where
  "bundle_stage env cache entryPoints ext =
     \<lparr>input = InputFiles (map (\<lambda>name. ''development/'' @ name @ ''.js'') entryPoints),
      rollup_output = \<lparr>output_file = None, output_dir = Some ''./'', format = ''esm'',
                       preserveModules = Some True, sourcemap = Some (\<not> CHECKSIZE env)\<rparr>,
      external = ext,
      treeshake = None,
      plugins =
        [Replace [(''const DEV_MODE = true'', ''const DEV_MODE = false'')],
         Sourcemaps,
         Terser (terserOptions env cache),
         Summary] @
        (if CHECKSIZE env then [SkipBundleOutput]
         else [Copy (map (\<lambda>name. \<lparr>src = ''development/'' @ name @ ''.d.ts'',
                                   dest = pathLib_dirname name\<rparr>) entryPoints)])\<rparr>"

text \<open>
  \<^verbatim>\<open>export function litRollupConfig({ entryPoints, external = [] } = options)\<close>.
  With no argument the default expression \<open>options\<close> is evaluated, and no binding of
  that name is in scope; \<^verbatim>\<open>null\<close> cannot be destructured; an object without
  \<open>entryPoints\<close> reaches \<^verbatim>\<open>entryPoints.map\<close> with \<open>undefined\<close>. The name cache is
  created before the entry points are first used.
\<close>

definition litRollupConfig ::
  "environment \<Rightarrow> js_argument \<Rightarrow> heap \<Rightarrow> js_error + (stage list \<times> heap)" where
  "litRollupConfig env arg h =
     (case arg of
        JsUndefined \<Rightarrow> Inl (ReferenceError ''options is not defined'')
      | JsNull \<Rightarrow> Inl (TypeError ''Cannot destructure property 'entryPoints' of null'')
      | JsObject opts \<Rightarrow>
          (let ext = (case arg_external opts of None \<Rightarrow> [] | Some e \<Rightarrow> e);
               (cache, h') = alloc nameCache_initial h
           in case arg_entryPoints opts of
                None \<Rightarrow> Inl (TypeError ''Cannot read properties of undefined (reading 'map')'')
              | Some entryPoints \<Rightarrow>
                  Inr ([seeder_stage env cache entryPoints ext,
                        bundle_stage env cache entryPoints ext], h')))"

section \<open>Observers of the descriptors\<close>

text \<open>The name caches referenced by the terser plugins of a plugin list, in plugin order.\<close>

fun terser_caches :: "plugin list \<Rightarrow> ref list" where
  "terser_caches [] = []"
| "terser_caches (Terser opts # ps) = nameCache opts # terser_caches ps"
| "terser_caches (p # ps) = terser_caches ps"

text \<open>The modules that the virtual plugins of a plugin list supply, and its terser options.\<close>

fun virtual_files :: "plugin list \<Rightarrow> string js_object" where
  "virtual_files [] = []"
| "virtual_files (Virtual files # ps) = files @ virtual_files ps"
| "virtual_files (p # ps) = virtual_files ps"



text \<open>\<^verbatim>\<open>String.prototype.split(c)\<close> for a one-character separator: the lines of a text.\<close>

fun split_on :: "char \<Rightarrow> string \<Rightarrow> string list" where
  "split_on c [] = [[]]"
| "split_on c (x # xs) =
     (if x = c then [] # split_on c xs
      else (case split_on c xs of [] \<Rightarrow> [[x]] | l # ls \<Rightarrow> (x # l) # ls))"

section \<open>The plugins the descriptors are handed to\<close>

text \<open>
  Modelled from the spec: terser's property mangler is a dependency, not part of the
  repository. Section 4.1 gives its contract: mangling is "restricted to names matching a
  private naming convention", "the Reserved Property Set [is] excluded from mangling", and the
  name cache holds the tokens already assigned, under the key \<open>$\<close> followed by the name
  (comment on \<open>nameCache\<close>). The token of a name that is not cached yet is the minifier's
  choice, the parameter \<open>fresh\<close>.
\<close>

definition mangle_property ::
  "(string \<Rightarrow> string) \<Rightarrow> terser_options \<Rightarrow> heap \<Rightarrow> string \<Rightarrow> string" where
  "mangle_property fresh opts h name =
     (let p = properties (mangle opts)
      in if regex_test (regex p) name \<and> name \<notin> set (reserved p)
         then (case cells h (nameCache opts) of
                 None \<Rightarrow> fresh name
               | Some c \<Rightarrow>
                   (case map_of (props (nameCache_props c)) (''$'' @ name) of
                      None \<Rightarrow> fresh name
                    | Some token \<Rightarrow> token))
         else name)"
























text \<open>
  Modelled from the spec: the replace plugin is a dependency. Section 4.2 has it
  "textually replace" each key of its table with the value: one pass from the left, the
  text after a replacement is scanned on, a replacement is not scanned again.
\<close>

function replace_text :: "string js_object \<Rightarrow> string \<Rightarrow> string" where
  "replace_text table [] = []"
| "replace_text table (c # cs) =
     (case find (\<lambda>(k, v). k \<noteq> [] \<and> prefix k (c # cs)) table of
        None \<Rightarrow> c # replace_text table cs
      | Some (k, v) \<Rightarrow> v @ replace_text table (drop (length k) (c # cs)))"
  by pat_completeness auto
termination
proof (relation "measure (\<lambda>(table, text). length text)")
  fix table :: "string js_object" and c cs x2 x y
  assume "find (\<lambda>(k, v). k \<noteq> [] \<and> prefix k (c # cs)) table = Some x2" and "(x, y) = x2"
  then have "x \<noteq> []"
    by (auto simp: find_Some_iff)
  then show "((table, drop (length x) (c # cs)), (table, c # cs))
      \<in> measure (\<lambda>(table, text). length text)"
    by (cases x) simp_all
qed simp_all

fun transform :: "plugin \<Rightarrow> string \<Rightarrow> string" where
  "transform (Replace table) code = replace_text table code"
| "transform p code = code"

text \<open>
  The replace tables of a plugin list, and the \<open>transform\<close> hooks of a stage run over
  the code of a module in plugin order.
\<close>

fun replace_tables :: "plugin list \<Rightarrow> string js_object list" where
  "replace_tables [] = []"
| "replace_tables (Replace table # ps) = table # replace_tables ps"
| "replace_tables (p # ps) = replace_tables ps"

definition stage_transform :: "stage \<Rightarrow> string \<Rightarrow> string" where
  "stage_transform st code = foldl (\<lambda>code p. transform p code) code (plugins st)"

section \<open>The style directive\<close>

text \<open>
  Modelled from the spec: the directive (directives/style-map.js) and the template engine
  are not among the sources, only the directive's test suite is. Section 4.3 gives the
  contract. A style map is an object from keys to string values; a key, camelCase or
  hyphenated, names a CSS property ("sets the corresponding CSS property"): the tests write
  \<open>padding-bottom\<close> and read \<open>paddingBottom\<close>. The inline style of the
  element gives every CSS property its value, the empty string when it is not set.
\<close>

type_synonym style_info = "string js_object"

type_synonym inline_style = "string \<Rightarrow> string"

definition is_upper :: "char \<Rightarrow> bool" where
  "is_upper c = (c \<in> set ''ABCDEFGHIJKLMNOPQRSTUVWXYZ'')"

definition to_lower :: "char \<Rightarrow> char" where
  "to_lower c =
     (case map_of (zip ''ABCDEFGHIJKLMNOPQRSTUVWXYZ'' ''abcdefghijklmnopqrstuvwxyz'') c of
        None \<Rightarrow> c | Some l \<Rightarrow> l)"

definition css_property :: "string \<Rightarrow> string" where
  "css_property key =
     (if CHR ''-'' \<in> set key then key
      else concat (map (\<lambda>c. if is_upper c then [CHR ''-'', to_lower c] else [c]) key))"

definition style_get :: "inline_style \<Rightarrow> string \<Rightarrow> string" where
  "style_get st key = st (css_property key)"

text \<open>
  Modelled from the spec: where a directive is written in a template (the template engine
  is not among the sources): in element content, or in the value of an attribute, which is
  a sequence of static text and dynamic fragments.
\<close>

datatype fragment = Static string | Dynamic

datatype binding_site = ContentPosition | AttributeValue string "fragment list"

definition dynamic_count :: "fragment list \<Rightarrow> nat" where
  "dynamic_count frs = length (filter (\<lambda>f. f = Dynamic) frs)"

text \<open>
  Modelled from the spec: "the directive may only be bound to a full-value style attribute,
  never a fragment combined with another dynamic part, and never to element content". Static
  text around the one dynamic fragment is allowed, as in \<open>renderStyleMapStatic\<close>.
\<close>

fun bindable :: "binding_site \<Rightarrow> bool" where
  "bindable ContentPosition = False"
| "bindable (AttributeValue name frs) = (name = ''style'' \<and> dynamic_count frs = 1)"

text \<open>
  Modelled from the spec: the states of the directive, unbound, or bound and remembering
  the keys of the map it applied last.
\<close>

datatype directive_state = Unbound | Bound "string list"

text \<open>
  Modelled from the spec: "apply(S') after a prior apply(S): any key present in S but absent
  from S' is cleared (reset to empty); any key in S' is set/overwritten; comparison is by
  current vs. previous key set". The first application has no previous keys.
\<close>

definition clear_removed :: "style_info \<Rightarrow> string list \<Rightarrow> inline_style \<Rightarrow> inline_style" where
  "clear_removed styleInfo previous st =
     foldl (\<lambda>st key. if key \<in> set (Object_keys styleInfo) then st
                       else st(css_property key := [])) st previous"

definition set_properties :: "style_info \<Rightarrow> inline_style \<Rightarrow> inline_style" where
  "set_properties styleInfo st = foldl (\<lambda>st (key, v). st(css_property key := v)) st styleInfo"

definition apply_style :: "style_info \<Rightarrow> string list \<Rightarrow> inline_style \<Rightarrow> inline_style" where
  "apply_style styleInfo previous st = set_properties styleInfo (clear_removed styleInfo previous st)"

text \<open>
  Modelled from the spec: rendering the directive. It "fails (raises an error) synchronously
  at bind time", that is on the first render and before it touches the style; once bound it
  applies the map against the keys it remembers.
\<close>

fun render_styleMap ::
  "binding_site \<Rightarrow> style_info \<Rightarrow> directive_state \<times> inline_style \<Rightarrow>
   js_error + directive_state \<times> inline_style" where
  "render_styleMap site styleInfo (Unbound, st) =
     (if bindable site
      then Inr (Bound (Object_keys styleInfo), apply_style styleInfo [] st)
      else Inl (Error ''styleMap must be the only part of a style attribute''))"
| "render_styleMap site styleInfo (Bound previous, st) =
     Inr (Bound (Object_keys styleInfo), apply_style styleInfo previous st)"

text \<open>Two renders in a row, as the tests do; the second is not reached when the first throws.\<close>

definition render_twice ::
  "binding_site \<Rightarrow> style_info \<Rightarrow> style_info \<Rightarrow> inline_style \<Rightarrow>
   js_error + directive_state \<times> inline_style" where
  "render_twice site S S' st =
     (case render_styleMap site S (Unbound, st) of
        Inl e \<Rightarrow> Inl e
      | Inr bound \<Rightarrow> render_styleMap site S' bound)"

text \<open>What \<open>el.style\<close> shows for a key after rendering, when rendering did not throw.\<close>

definition rendered_style ::
  "js_error + directive_state \<times> inline_style \<Rightarrow> string \<Rightarrow> string option" where
  "rendered_style result key =
     (case result of Inl e \<Rightarrow> None | Inr (d, st) \<Rightarrow> Some (style_get st key))"

section \<open>Example inputs\<close>

definition example_env :: environment where
  "example_env = \<lparr>process_env_CHECKSIZE = None\<rparr>"


definition empty_heap :: heap where
  "empty_heap = \<lparr>cells = (\<lambda>r. None), next_ref = 0\<rparr>"

definition example_argument :: js_argument where
  "example_argument =
     JsObject \<lparr>arg_entryPoints = Some [''lit-html'', ''directives/style-map''], arg_external = None\<rparr>"

definition example_stages :: "environment \<Rightarrow> stage list" where
  "example_stages env =
     [seeder_stage env 0 [''lit-html'', ''directives/style-map''] [],
      bundle_stage env 0 [''lit-html'', ''directives/style-map''] []]"

definition example_heap :: heap where
  "example_heap = \<lparr>cells = (\<lambda>r. None)(0 \<mapsto> nameCache_initial), next_ref = Suc 0\<rparr>"

text \<open>An entry-point name that holds a newline.\<close>

definition newline_name :: string where
  "newline_name = ''a'' @ [CHR 0x0A] @ ''b''"





text \<open>A fresh \<open>div\<close> has no inline style; the binding site of \<open>renderStyleMap\<close>.\<close>

definition no_style :: inline_style where
  "no_style = (\<lambda>p. [])"

definition style_attribute :: binding_site where
  "style_attribute = AttributeValue ''style'' [Dynamic]"

text \<open>The maps of the test "adds and updates properties".\<close>

definition first_map :: style_info where
  "first_map = [(''marginTop'', ''2px''), (''padding-bottom'', ''4px''), (''opacity'', ''0.5'')]"

definition second_map :: style_info where
  "second_map = [(''marginTop'', ''4px''), (''paddingBottom'', ''8px''), (''opacity'', ''0.55'')]"

text \<open>The site and the static declarations of \<open>renderStyleMapStatic\<close>.\<close>

definition static_site :: binding_site where
  "static_site = AttributeValue ''style'' [Static ''height: 1px; '', Dynamic, Static '' color: red'']"

definition static_style :: inline_style where
  "static_style = no_style(''height'' := ''1px'', ''color'' := ''red'')"

section \<open>The property mangle table\<close>

lemma distinct_snd_unique:
  "distinct (map snd xs) \<Longrightarrow> (a, t) \<in> set xs \<Longrightarrow> (b, t) \<in> set xs \<Longrightarrow> a = b"
  by (induction xs) (auto simp: rev_image_eqI)

lemma mangle_tokens_distinct: "distinct (map snd crossPackagePropertyMangles)"
  by (simp add: crossPackagePropertyMangles_def)

lemma mangle_names_distinct: "distinct (map fst crossPackagePropertyMangles)"
  by (simp add: crossPackagePropertyMangles_def)

lemma nameCache_initial_props:
  "props (nameCache_props nameCache_initial) =
     map (\<lambda>(name, token). (''$'' @ name, token)) crossPackagePropertyMangles"
  by (simp add: nameCache_initial_def reduce_def Object_entries_def crossPackagePropertyMangles_def)

lemma map_of_prefixed:
  assumes "distinct (map fst xs)"
  shows "map_of (map (\<lambda>(name, token). (p @ name, token)) xs) k = Some t
     \<longleftrightarrow> (\<exists>name. k = p @ name \<and> (name, t) \<in> set xs)"
  using assms
proof (induction xs)
  case Nil
  then show ?case by simp
next
  case (Cons x xs)
  obtain n v where x: "x = (n, v)" by (cases x)
  from Cons x show ?case
    by (auto simp: rev_image_eqI)
qed

text \<open>
  C10. The property mangle table is injective: two different names never have the same
  token, and so the name cache seeded from the table never maps two keys to one token.
\<close>

theorem crossPackagePropertyMangles_injective:
  "(\<forall>n1 t1 n2 t2. (n1, t1) \<in> set crossPackagePropertyMangles \<longrightarrow>
       (n2, t2) \<in> set crossPackagePropertyMangles \<longrightarrow> n1 \<noteq> n2 \<longrightarrow> t1 \<noteq> t2) \<and>
   (\<forall>k1 k2 t. map_of (props (nameCache_props nameCache_initial)) k1 = Some t \<longrightarrow>
       map_of (props (nameCache_props nameCache_initial)) k2 = Some t \<longrightarrow> k1 = k2)"
proof (intro conjI allI impI)
  fix n1 t1 n2 t2
  assume "(n1, t1) \<in> set crossPackagePropertyMangles"
    and "(n2, t2) \<in> set crossPackagePropertyMangles" and "n1 \<noteq> n2"
  then show "t1 \<noteq> t2"
    using distinct_snd_unique [OF mangle_tokens_distinct] by blast
next
  fix k1 k2 t
  let ?c = "props (nameCache_props nameCache_initial)"
  assume "map_of ?c k1 = Some t" and "map_of ?c k2 = Some t"
  then obtain a b where "k1 = ''$'' @ a" "(a, t) \<in> set crossPackagePropertyMangles"
    "k2 = ''$'' @ b" "(b, t) \<in> set crossPackagePropertyMangles"
    unfolding nameCache_initial_props map_of_prefixed [OF mangle_names_distinct] by blast
  then show "k1 = k2"
    using distinct_snd_unique [OF mangle_tokens_distinct] by blast
qed

theorem crossPackagePropertyMangles_injective_witness:
  "(''_endNode'', ''B'') \<in> set crossPackagePropertyMangles \<and>
   (''_parts'', ''E'') \<in> set crossPackagePropertyMangles \<and>
   ''_endNode'' \<noteq> ''_parts'' \<and> ''B'' \<noteq> ''E'' \<and>
   map_of (props (nameCache_props nameCache_initial)) ''$_endNode'' = Some ''B''"
  using crossPackagePropertyMangles_injective
  by (simp add: crossPackagePropertyMangles_def nameCache_initial_props)

section \<open>What litRollupConfig returns\<close>

lemma litRollupConfig_Inr:
  assumes "litRollupConfig env arg h = Inr (stages, h')"
  obtains entryPoints ext where
    "arg = JsObject \<lparr>arg_entryPoints = Some entryPoints, arg_external = ext\<rparr>"
    "stages = [seeder_stage env (next_ref h) entryPoints (case ext of None \<Rightarrow> [] | Some e \<Rightarrow> e),
               bundle_stage env (next_ref h) entryPoints (case ext of None \<Rightarrow> [] | Some e \<Rightarrow> e)]"
    "cells h' (next_ref h) = Some nameCache_initial"
    "next_ref h' = Suc (next_ref h)"
proof (cases arg)
  case JsUndefined
  with assms show ?thesis by (simp add: litRollupConfig_def)
next
  case JsNull
  with assms show ?thesis by (simp add: litRollupConfig_def)
next
  case (JsObject opts)
  obtain eo xo where opts: "opts = \<lparr>arg_entryPoints = eo, arg_external = xo\<rparr>"
    by (cases opts) simp
  show ?thesis
  proof (cases eo)
    case None
    with assms JsObject opts show ?thesis
      by (simp add: litRollupConfig_def alloc_def Let_def)
  next
    case (Some eps)
    with assms JsObject opts that [of eps xo] show ?thesis
      by (auto simp: litRollupConfig_def alloc_def Let_def)
  qed
qed

lemma example_config:
  "litRollupConfig env example_argument empty_heap = Inr (example_stages env, example_heap)"
  by (simp add: litRollupConfig_def example_argument_def empty_heap_def alloc_def
      example_stages_def example_heap_def)

lemma example_config_at:
  "litRollupConfig env (JsObject \<lparr>arg_entryPoints = Some eps, arg_external = None\<rparr>) empty_heap =
     Inr ([seeder_stage env 0 eps [], bundle_stage env 0 eps []], example_heap)"
  by (simp add: litRollupConfig_def empty_heap_def alloc_def example_heap_def)

text \<open>
  C2. When litRollupConfig returns, the one name cache that the terser plugins of both
  stages reference holds exactly one entry per pair of the property mangle table, the key
  \<open>$\<close> followed by the name, the value the token, in table order, and nothing else.
\<close>

theorem nameCache_preloaded:
  assumes "litRollupConfig env arg h = Inr (stages, h')"
  shows "\<exists>r cache.
      (\<forall>st \<in> set stages. terser_caches (plugins st) = [r]) \<and>
      cells h' r = Some cache \<and>
      props (nameCache_props cache) =
        map (\<lambda>(name, token). (''$'' @ name, token)) crossPackagePropertyMangles \<and>
      (\<forall>k t. map_of (props (nameCache_props cache)) k = Some t \<longleftrightarrow>
         (\<exists>name. k = ''$'' @ name \<and> (name, t) \<in> set crossPackagePropertyMangles))"
proof -
  from assms obtain eps ext where
    st: "stages = [seeder_stage env (next_ref h) eps (case ext of None \<Rightarrow> [] | Some e \<Rightarrow> e),
               bundle_stage env (next_ref h) eps (case ext of None \<Rightarrow> [] | Some e \<Rightarrow> e)]"
    and c: "cells h' (next_ref h) = Some nameCache_initial"
    by (rule litRollupConfig_Inr)
  have "\<forall>st \<in> set stages. terser_caches (plugins st) = [next_ref h]"
    by (simp add: st seeder_stage_def bundle_stage_def terserOptions_def)
  with c show ?thesis
    using nameCache_initial_props map_of_prefixed [OF mangle_names_distinct, of "''$''"]
    by (intro exI [of _ "next_ref h"] exI [of _ nameCache_initial]) simp
qed

theorem nameCache_preloaded_witness:
  "litRollupConfig example_env example_argument empty_heap =
     Inr (example_stages example_env, example_heap) \<and>
   (\<exists>r cache.
      (\<forall>st \<in> set (example_stages example_env). terser_caches (plugins st) = [r]) \<and>
      cells example_heap r = Some cache \<and>
      props (nameCache_props cache) =
        map (\<lambda>(name, token). (''$'' @ name, token)) crossPackagePropertyMangles \<and>
      (\<forall>k t. map_of (props (nameCache_props cache)) k = Some t \<longleftrightarrow>
         (\<exists>name. k = ''$'' @ name \<and> (name, t) \<in> set crossPackagePropertyMangles)))"
  by (rule conjI [OF example_config nameCache_preloaded [OF example_config]])

text \<open>
  C9. Called with no argument, litRollupConfig throws a ReferenceError (the default
  expression names \<open>options\<close>, which is not bound); it returns a descriptor sequence
  exactly when it is given an object that supplies entryPoints.
\<close>

theorem litRollupConfig_requires_argument:
  "litRollupConfig env JsUndefined h = Inl (ReferenceError ''options is not defined'') \<and>
   ((\<exists>r. litRollupConfig env arg h = Inr r) \<longleftrightarrow>
    (\<exists>opts entryPoints. arg = JsObject opts \<and> arg_entryPoints opts = Some entryPoints))"
proof (intro conjI iffI)
  show "litRollupConfig env JsUndefined h = Inl (ReferenceError ''options is not defined'')"
    by (simp add: litRollupConfig_def)
next
  assume "\<exists>r. litRollupConfig env arg h = Inr r"
  then obtain stages h' where "litRollupConfig env arg h = Inr (stages, h')" by auto
  then show "\<exists>opts entryPoints. arg = JsObject opts \<and> arg_entryPoints opts = Some entryPoints"
    by (rule litRollupConfig_Inr) simp
next
  assume "\<exists>opts entryPoints. arg = JsObject opts \<and> arg_entryPoints opts = Some entryPoints"
  then show "\<exists>r. litRollupConfig env arg h = Inr r"
    by (auto simp: litRollupConfig_def alloc_def Let_def)
qed

theorem litRollupConfig_requires_argument_witness:
  "(\<exists>r. litRollupConfig example_env example_argument empty_heap = Inr r) \<and>
   (\<exists>opts entryPoints. example_argument = JsObject opts \<and> arg_entryPoints opts = Some entryPoints) \<and>
   litRollupConfig example_env JsUndefined empty_heap = Inl (ReferenceError ''options is not defined'')"
  using litRollupConfig_requires_argument [of example_env empty_heap example_argument]
  by (simp add: example_argument_def)

section \<open>The seeder module\<close>


lemma split_on_no_separator: "c \<notin> set x \<Longrightarrow> split_on c x = [x]"
  by (induction x) auto

lemma split_on_append: "c \<notin> set x \<Longrightarrow> split_on c (x @ c # rest) = x # split_on c rest"
  by (induction x) auto

lemma split_on_join:
  "ls \<noteq> [] \<Longrightarrow> \<forall>l \<in> set ls. c \<notin> set l \<Longrightarrow> split_on c (join [c] ls) = ls"
proof (induction "[c]" ls rule: join.induct)
  case 1
  then show ?case by simp
next
  case (2 x)
  then show ?case by (simp add: split_on_no_separator)
next
  case (3 x y ys)
  then show ?case by (simp add: split_on_append)
qed

lemma seeder_lines:
  assumes "\<forall>name \<in> set entryPoints. CHR 0x0A \<notin> set name"
  shows "split_on (CHR 0x0A) (nameCacheSeederContents entryPoints) =
       map (\<lambda>name. ''import './development/'' @ name @ ''.js';'') entryPoints @
       map (\<lambda>name. ''console.log(window.'' @ name @ '');'')
         (Object_keys crossPackagePropertyMangles)"
proof -
  let ?stmts = "map (\<lambda>name. ''import './development/'' @ name @ ''.js';'') entryPoints @
       map (\<lambda>name. ''console.log(window.'' @ name @ '');'')
         (Object_keys crossPackagePropertyMangles)"
  have "?stmts \<noteq> []"
    by (simp add: Object_keys_def crossPackagePropertyMangles_def)
  moreover have "\<forall>l \<in> set ?stmts. CHR 0x0A \<notin> set l"
    using assms by (auto simp: Object_keys_def crossPackagePropertyMangles_def)
  ultimately show ?thesis
    unfolding nameCacheSeederContents_def by (rule split_on_join)
qed

lemma seeder_stage_virtual:
  "virtual_files (plugins (seeder_stage env r eps ext)) =
     [(nameCacheSeederInfile, nameCacheSeederContents eps)]"
  "input (seeder_stage env r eps ext) = InputFile nameCacheSeederInfile"
  by (simp_all add: seeder_stage_def)

lemma bundle_stage_virtual: "virtual_files (plugins (bundle_stage env r eps ext)) = []"
  by (simp add: bundle_stage_def)

text \<open>
  C3 (as amended). For every entry-point list none of whose names holds a newline, the text
  that the virtual plugin of the returned seeder stage supplies for the stage's input has
  exactly these lines: one import statement per entry point (of
  \<open>./development/<name>.js\<close>, in list order), then one
  \<open>console.log(window.<name>)\<close> per key of the property mangle table, in table order.
\<close>

theorem seeder_module_lines:
  assumes "litRollupConfig env (JsObject opts) h = Inr (stages, h')"
    and "arg_entryPoints opts = Some entryPoints"
    and "\<forall>name \<in> set entryPoints. CHR 0x0A \<notin> set name"
  shows "\<exists>seeder per_entry code.
      stages = [seeder, per_entry] \<and>
      input seeder = InputFile nameCacheSeederInfile \<and>
      virtual_files (plugins seeder) = [(nameCacheSeederInfile, code)] \<and>
      virtual_files (plugins per_entry) = [] \<and>
      split_on (CHR 0x0A) code =
        map (\<lambda>name. ''import './development/'' @ name @ ''.js';'') entryPoints @
        [''console.log(window._createElement);'',
         ''console.log(window._endNode);'',
         ''console.log(window._startNode);'',
         ''console.log(window._parts);'',
         ''console.log(window._directive);'',
         ''console.log(window._setEndNode);'',
         ''console.log(window._template);'',
         ''console.log(window._constructor);'',
         ''console.log(window._name);'',
         ''console.log(window._strings);'',
         ''console.log(window._commitValue);'']"
proof -
  from assms(1) obtain eps ext where
    a: "JsObject opts = JsObject \<lparr>arg_entryPoints = Some eps, arg_external = ext\<rparr>"
    and st: "stages = [seeder_stage env (next_ref h) eps (case ext of None \<Rightarrow> [] | Some e \<Rightarrow> e),
               bundle_stage env (next_ref h) eps (case ext of None \<Rightarrow> [] | Some e \<Rightarrow> e)]"
    by (rule litRollupConfig_Inr)
  from a assms(2) have eps: "eps = entryPoints" by simp
  have "split_on (CHR 0x0A) (nameCacheSeederContents entryPoints) =
        map (\<lambda>name. ''import './development/'' @ name @ ''.js';'') entryPoints @
        [''console.log(window._createElement);'',
         ''console.log(window._endNode);'',
         ''console.log(window._startNode);'',
         ''console.log(window._parts);'',
         ''console.log(window._directive);'',
         ''console.log(window._setEndNode);'',
         ''console.log(window._template);'',
         ''console.log(window._constructor);'',
         ''console.log(window._name);'',
         ''console.log(window._strings);'',
         ''console.log(window._commitValue);'']"
    unfolding seeder_lines [OF assms(3)]
    by (simp add: Object_keys_def crossPackagePropertyMangles_def)
  then show ?thesis
    by (simp add: st eps seeder_stage_virtual bundle_stage_virtual)
qed

theorem seeder_module_lines_witness:
  "litRollupConfig example_env
     (JsObject \<lparr>arg_entryPoints = Some [''lit-html'', ''directives/style-map''], arg_external = None\<rparr>)
     empty_heap =
     Inr ([seeder_stage example_env 0 [''lit-html'', ''directives/style-map''] [],
           bundle_stage example_env 0 [''lit-html'', ''directives/style-map''] []], example_heap) \<and>
   CHR 0x0A \<notin> set ''lit-html'' \<and> CHR 0x0A \<notin> set ''directives/style-map'' \<and>
   (\<exists>seeder per_entry code.
      [seeder_stage example_env 0 [''lit-html'', ''directives/style-map''] [],
       bundle_stage example_env 0 [''lit-html'', ''directives/style-map''] []] = [seeder, per_entry] \<and>
      input seeder = InputFile nameCacheSeederInfile \<and>
      virtual_files (plugins seeder) = [(nameCacheSeederInfile, code)] \<and>
      virtual_files (plugins per_entry) = [] \<and>
      split_on (CHR 0x0A) code =
        [''import './development/lit-html.js';'',
         ''import './development/directives/style-map.js';'',
         ''console.log(window._createElement);'',
         ''console.log(window._endNode);'',
         ''console.log(window._startNode);'',
         ''console.log(window._parts);'',
         ''console.log(window._directive);'',
         ''console.log(window._setEndNode);'',
         ''console.log(window._template);'',
         ''console.log(window._constructor);'',
         ''console.log(window._name);'',
         ''console.log(window._strings);'',
         ''console.log(window._commitValue);''])"
proof -
  have nl: "\<forall>name \<in> set [''lit-html'', ''directives/style-map'']. CHR 0x0A \<notin> set name"
    by simp
  have e: "arg_entryPoints \<lparr>arg_entryPoints = Some [''lit-html'', ''directives/style-map''],
      arg_external = None\<rparr> = Some [''lit-html'', ''directives/style-map'']"
    by simp
  from seeder_module_lines [OF example_config_at e nl] example_config_at [of example_env]
  show ?thesis by simp
qed

text \<open>
  With the one entry point \<open>a<newline>b\<close> the text of the seeder stage has thirteen
  lines for its twelve statements: the import statement takes two.
\<close>

theorem seeder_module_lines_counterexample:
  "litRollupConfig example_env
     (JsObject \<lparr>arg_entryPoints = Some [newline_name], arg_external = None\<rparr>) empty_heap =
     Inr ([seeder_stage example_env 0 [newline_name] [],
           bundle_stage example_env 0 [newline_name] []], example_heap) \<and>
   virtual_files (plugins (seeder_stage example_env 0 [newline_name] [])) =
     [(nameCacheSeederInfile, nameCacheSeederContents [newline_name])] \<and>
   split_on (CHR 0x0A) (nameCacheSeederContents [newline_name]) =
     [''import './development/a'',
      ''b.js';'',
      ''console.log(window._createElement);'',
      ''console.log(window._endNode);'',
      ''console.log(window._startNode);'',
      ''console.log(window._parts);'',
      ''console.log(window._directive);'',
      ''console.log(window._setEndNode);'',
      ''console.log(window._template);'',
      ''console.log(window._constructor);'',
      ''console.log(window._name);'',
      ''console.log(window._strings);'',
      ''console.log(window._commitValue);'']"
  by (simp add: example_config_at seeder_stage_virtual nameCacheSeederContents_def newline_name_def
      Object_keys_def crossPackagePropertyMangles_def)


section \<open>The terser options of both stages\<close>

lemma seeder_stage_terser:
  "Terser opts \<in> set (plugins (seeder_stage env r eps ext)) \<longleftrightarrow> opts = terserOptions env r"
  by (simp add: seeder_stage_def)

lemma bundle_stage_terser:
  "Terser opts \<in> set (plugins (bundle_stage env r eps ext)) \<longleftrightarrow> opts = terserOptions env r"
  by (simp add: bundle_stage_def)

lemma returned_terser_options:
  assumes "litRollupConfig env arg h = Inr (stages, h')"
    and "st \<in> set stages" and "Terser opts \<in> set (plugins st)"
  shows "opts = terserOptions env (next_ref h)"
proof -
  from assms(1) obtain eps ext where
    "stages = [seeder_stage env (next_ref h) eps (case ext of None \<Rightarrow> [] | Some e \<Rightarrow> e),
               bundle_stage env (next_ref h) eps (case ext of None \<Rightarrow> [] | Some e \<Rightarrow> e)]"
    by (rule litRollupConfig_Inr)
  with assms(2) consider
      "st = seeder_stage env (next_ref h) eps (case ext of None \<Rightarrow> [] | Some e \<Rightarrow> e)"
    | "st = bundle_stage env (next_ref h) eps (case ext of None \<Rightarrow> [] | Some e \<Rightarrow> e)"
    by auto
  then show ?thesis
  proof cases
    case 1
    with assms(3) show ?thesis by (simp only: seeder_stage_terser)
  next
    case 2
    with assms(3) show ?thesis by (simp only: bundle_stage_terser)
  qed
qed

lemma reserved_match_regex:
  "name \<in> set reservedProperties \<Longrightarrow> regex_test (StartsWith ''_'') name"
  by (auto simp: reservedProperties_def)

lemma reserved_not_in_table_all:
  "\<forall>name \<in> set reservedProperties. map_of crossPackagePropertyMangles name = None"
  by (simp add: reservedProperties_def crossPackagePropertyMangles_def)

lemma reserved_not_in_table:
  "name \<in> set reservedProperties \<Longrightarrow> map_of crossPackagePropertyMangles name = None"
  using reserved_not_in_table_all by blast

text \<open>
  C1. Under the terser options of either stage the property mangler returns every name of
  reservedProperties unchanged, whatever the name cache holds and whatever tokens the
  minifier would choose; each of these names does match the mangled prefix \<open>_\<close>, so
  it is the reserved list that keeps it, and none of them is a key of the mangle table.
\<close>

theorem reserved_properties_unmangled:
  assumes "litRollupConfig env arg h = Inr (stages, h')"
    and "st \<in> set stages" and "Terser opts \<in> set (plugins st)"
    and "name \<in> set reservedProperties"
  shows "mangle_property fresh opts cache_state name = name \<and>
         regex_test (regex (properties (mangle opts))) name \<and>
         map_of crossPackagePropertyMangles name = None"
proof -
  have opts: "opts = terserOptions env (next_ref h)"
    using assms(1-3) by (rule returned_terser_options)
  have "mangle_property fresh opts cache_state name = name"
    using assms(4) by (simp add: opts mangle_property_def terserOptions_def)
  moreover have "regex_test (regex (properties (mangle opts))) name"
    using reserved_match_regex [OF assms(4)] by (simp add: opts terserOptions_def)
  ultimately show ?thesis
    using reserved_not_in_table [OF assms(4)] by simp
qed

theorem reserved_properties_unmangled_witness:
  "litRollupConfig example_env example_argument empty_heap = Inr (example_stages example_env, example_heap) \<and>
   bundle_stage example_env 0 [''lit-html'', ''directives/style-map''] [] \<in> set (example_stages example_env) \<and>
   Terser (terserOptions example_env 0)
     \<in> set (plugins (bundle_stage example_env 0 [''lit-html'', ''directives/style-map''] [])) \<and>
   ''_$litType$'' \<in> set reservedProperties \<and>
   mangle_property (\<lambda>n. ''a'') (terserOptions example_env 0) example_heap ''_$litType$'' = ''_$litType$''"
proof -
  have a: "bundle_stage example_env 0 [''lit-html'', ''directives/style-map''] []
      \<in> set (example_stages example_env)"
    by (simp add: example_stages_def)
  have b: "Terser (terserOptions example_env 0)
     \<in> set (plugins (bundle_stage example_env 0 [''lit-html'', ''directives/style-map''] []))"
    by (simp add: bundle_stage_def)
  have c: "''_$litType$'' \<in> set reservedProperties"
    by (simp add: reservedProperties_def)
  have d: "mangle_property (\<lambda>n. ''a'') (terserOptions example_env 0) example_heap ''_$litType$''
      = ''_$litType$''"
    using reserved_properties_unmangled [OF example_config a b c] by (rule conjunct1)
  show ?thesis by (intro conjI example_config a b c d)
qed

section \<open>Size-check mode\<close>
















section \<open>The development flag\<close>

lemma replace_text_unchanged:
  "\<not> sublist P code \<Longrightarrow> replace_text [(P, R)] code = code"
proof (induction code)
  case Nil
  then show ?case by simp
next
  case (Cons c cs)
  from Cons.prems have "\<not> prefix P (c # cs)" and "\<not> sublist P cs"
    by (auto simp: sublist_Cons_right)
  with Cons.IH show ?case by simp
qed

lemma prefix_before_occurrence:
  assumes "prefix P (pre @ P @ post)" and "pre \<noteq> []"
  shows "prefix P (pre @ butlast P)"
proof (cases "P = []")
  case True
  then show ?thesis by simp
next
  case False
  from assms(1) have "P = take (length P) (pre @ P @ post)"
    by (metis append_eq_conv_conj prefix_def)
  moreover have "length P \<le> length (pre @ butlast P)"
    using assms(2) False by (cases pre) auto
  moreover have "pre @ P @ post = (pre @ butlast P) @ (last P # post)"
    using False by simp
  ultimately have "P = take (length P) (pre @ butlast P)"
    by (metis append_eq_conv_conj append_take_drop_id take_append take_all_iff
        diff_is_0_eq' take0 append_Nil2)
  then show ?thesis
    by (metis take_is_prefix)
qed

lemma replace_text_first_occurrence:
  assumes "P \<noteq> []"
  shows "\<not> sublist P (pre @ butlast P) \<Longrightarrow>
     replace_text [(P, R)] (pre @ P @ post) = pre @ R @ replace_text [(P, R)] post"
proof (induction pre)
  case Nil
  from assms obtain c cs where "P = c # cs" by (cases P) auto
  then show ?case by simp
next
  case (Cons c pre)
  from Cons.prems have np: "\<not> prefix P ((c # pre) @ butlast P)"
    and ns: "\<not> sublist P (pre @ butlast P)"
    by (auto simp: sublist_Cons_right)
  from np have "\<not> prefix P ((c # pre) @ P @ post)"
    using prefix_before_occurrence [of P "c # pre" post] by blast
  with Cons.IH [OF ns] show ?case by simp
qed

lemma prefix_replace_text:
  assumes "h \<notin> set q"
  shows "prefix q (replace_text [(h # p, h # r)] cs) \<longleftrightarrow> prefix q cs"
  using assms
proof (induction q arbitrary: cs)
  case Nil
  then show ?case by simp
next
  case (Cons x q)
  show ?case
  proof (cases cs)
    case Nil
    then show ?thesis by simp
  next
    case (Cons c cs')
    with Cons.prems Cons.IH [of cs'] show ?thesis by auto
  qed
qed

lemma sublist_skip:
  "h \<notin> set r \<Longrightarrow> sublist (h # p) (r @ s) \<longleftrightarrow> sublist (h # p) s"
  by (induction r) (auto simp: sublist_Cons_right)

lemma replace_text_removes:
  assumes "h \<notin> set p" and "h \<notin> set r" and "\<not> prefix p r" and "\<not> prefix r p"
  shows "\<not> sublist (h # p) (replace_text [(h # p, h # r)] code)"
proof (induction code rule: length_induct)
  case (1 code)
  let ?T = "[(h # p, h # r)]"
  show ?case
  proof (cases code)
    case Nil
    then show ?thesis by simp
  next
    case (Cons c cs)
    show ?thesis
    proof (cases "prefix (h # p) (c # cs)")
      case True
      let ?rest = "replace_text ?T (drop (length (h # p)) (c # cs))"
      have "\<not> sublist (h # p) ?rest"
        using 1 Cons by simp
      then have "\<not> sublist (h # p) (r @ ?rest)"
        using assms(2) by (simp add: sublist_skip)
      moreover have "\<not> prefix p (r @ ?rest)"
        using assms(3,4) by (metis prefix_same_cases prefixI)
      ultimately have "\<not> sublist (h # p) ((h # r) @ ?rest)"
        by (simp add: sublist_Cons_right)
      with True Cons show ?thesis by simp
    next
      case False
      have "\<not> sublist (h # p) (replace_text ?T cs)"
        using 1 Cons by simp
      moreover have "\<not> prefix (h # p) (c # replace_text ?T cs)"
        using False prefix_replace_text [OF assms(1), of p r cs] by simp
      ultimately have "\<not> sublist (h # p) (c # replace_text ?T cs)"
        using sublist_Cons_right by metis
      moreover from False have "replace_text ?T (c # cs) = c # replace_text ?T cs"
        by auto
      ultimately show ?thesis
        by (simp only: Cons not_False_eq_True)
    qed
  qed
qed

lemma dev_mode_removed:
  "\<not> sublist ''const DEV_MODE = true''
      (replace_text [(''const DEV_MODE = true'', ''const DEV_MODE = false'')] code)"
  by (rule replace_text_removes) simp_all

lemma bundle_stage_transform:
  "stage_transform (bundle_stage env r eps ext) code =
     replace_text [(''const DEV_MODE = true'', ''const DEV_MODE = false'')] code"
  by (simp add: stage_transform_def bundle_stage_def)

lemma seeder_stage_transform: "stage_transform (seeder_stage env r eps ext) code = code"
  by (simp add: stage_transform_def seeder_stage_def)

lemma bundle_stage_replace_tables:
  "replace_tables (plugins (bundle_stage env r eps ext)) =
     [[(''const DEV_MODE = true'', ''const DEV_MODE = false'')]]"
  by (simp add: bundle_stage_def)

text \<open>
  C6. The only replace table of the configuration is the one of the per-entry stage, with
  the single pair \<open>const DEV_MODE = true\<close> to \<open>const DEV_MODE = false\<close>. Under the
  textual replacement of the spec no occurrence of the first text is left in the transformed
  code, the first occurrence is replaced by the second text and the code after it is treated
  alike, and code that does not hold the exact text is returned unchanged.
\<close>

theorem dev_mode_replacement:
  assumes "litRollupConfig env (JsObject opts) h = Inr (stages, h')"
  shows "\<exists>seeder bundle.
      stages = [seeder, bundle] \<and>
      replace_tables (plugins seeder) = [] \<and>
      replace_tables (plugins bundle) =
        [[(''const DEV_MODE = true'', ''const DEV_MODE = false'')]] \<and>
      (\<forall>code. stage_transform seeder code = code) \<and>
      (\<forall>code. \<not> sublist ''const DEV_MODE = true'' (stage_transform bundle code)) \<and>
      (\<forall>code. \<not> sublist ''const DEV_MODE = true'' code \<longrightarrow>
         stage_transform bundle code = code) \<and>
      (\<forall>pre post. \<not> sublist ''const DEV_MODE = true'' (pre @ ''const DEV_MODE = tru'') \<longrightarrow>
         stage_transform bundle (pre @ ''const DEV_MODE = true'' @ post) =
           pre @ ''const DEV_MODE = false'' @ stage_transform bundle post)"
proof -
  from assms obtain eps ext where
    st: "stages = [seeder_stage env (next_ref h) eps (case ext of None \<Rightarrow> [] | Some e \<Rightarrow> e),
               bundle_stage env (next_ref h) eps (case ext of None \<Rightarrow> [] | Some e \<Rightarrow> e)]"
    by (rule litRollupConfig_Inr)
  have first: "\<not> sublist ''const DEV_MODE = true'' (pre @ ''const DEV_MODE = tru'') \<Longrightarrow>
      replace_text [(''const DEV_MODE = true'', ''const DEV_MODE = false'')]
        (pre @ ''const DEV_MODE = true'' @ post) =
      pre @ ''const DEV_MODE = false'' @
        replace_text [(''const DEV_MODE = true'', ''const DEV_MODE = false'')] post" for pre post
    using replace_text_first_occurrence [of "''const DEV_MODE = true''" pre] by simp
  have "replace_tables (plugins (seeder_stage env r eps x)) = []" for r x
    by (simp add: seeder_stage_def)
  then show ?thesis
    using first
    by (simp add: st bundle_stage_replace_tables seeder_stage_transform bundle_stage_transform
        dev_mode_removed replace_text_unchanged del: replace_text.simps)
qed

theorem dev_mode_replacement_witness:
  "\<not> sublist ''const DEV_MODE = true'' ''const DEV_MODE=true;'' \<and>
   stage_transform (bundle_stage example_env 0 [''lit-html'', ''directives/style-map''] [])
     ''const DEV_MODE=true;'' = ''const DEV_MODE=true;'' \<and>
   \<not> sublist ''const DEV_MODE = true'' (''a; '' @ ''const DEV_MODE = tru'') \<and>
   stage_transform (bundle_stage example_env 0 [''lit-html'', ''directives/style-map''] [])
     (''a; '' @ ''const DEV_MODE = true'' @ ''; b'') = ''a; const DEV_MODE = false; b''"
proof -
  let ?b = "bundle_stage example_env 0 [''lit-html'', ''directives/style-map''] []"
  from dev_mode_replacement [OF example_config [of example_env, unfolded example_argument_def]]
  obtain seeder entry where st: "example_stages example_env = [seeder, entry]"
    and u: "\<forall>code. \<not> sublist ''const DEV_MODE = true'' code \<longrightarrow>
         stage_transform entry code = code"
    and f: "\<forall>pre post. \<not> sublist ''const DEV_MODE = true'' (pre @ ''const DEV_MODE = tru'') \<longrightarrow>
         stage_transform entry (pre @ ''const DEV_MODE = true'' @ post) =
           pre @ ''const DEV_MODE = false'' @ stage_transform entry post"
    by blast
  from st have b: "entry = ?b"
    by (simp add: example_stages_def)
  have h1: "\<not> sublist ''const DEV_MODE = true'' ''const DEV_MODE=true;''"
    by (simp add: sublist_Cons_right)
  have h2: "\<not> sublist ''const DEV_MODE = true'' (''a; '' @ ''const DEV_MODE = tru'')"
    by (simp add: sublist_Cons_right)
  have h3: "\<not> sublist ''const DEV_MODE = true'' ''; b''"
    by (simp add: sublist_Cons_right)
  from u h1 have r1: "stage_transform ?b ''const DEV_MODE=true;'' = ''const DEV_MODE=true;''"
    unfolding b by blast
  from u h3 have r3: "stage_transform ?b ''; b'' = ''; b''"
    unfolding b by blast
  from f h2 have "stage_transform ?b (''a; '' @ ''const DEV_MODE = true'' @ ''; b'') =
      ''a; '' @ ''const DEV_MODE = false'' @ stage_transform ?b ''; b''"
    unfolding b by blast
  with r3 have r2: "stage_transform ?b (''a; '' @ ''const DEV_MODE = true'' @ ''; b'') =
      ''a; const DEV_MODE = false; b''"
    by simp
  show ?thesis
    by (intro conjI h1 r1 h2 r2)
qed


section \<open>The style directive: updates and binding errors\<close>

lemma css_property_examples:
  "css_property ''paddingBottom'' = ''padding-bottom''"
  "css_property ''padding-bottom'' = ''padding-bottom''"
  "css_property ''marginTop'' = ''margin-top''"
  "css_property ''opacity'' = ''opacity''"
  by (simp_all add: css_property_def is_upper_def to_lower_def)

lemma set_properties_lookup:
  "set_properties S st p =
     (case map_of (rev (map (\<lambda>(k, v). (css_property k, v)) S)) p of
        None \<Rightarrow> st p | Some v \<Rightarrow> v)"
proof (induction S rule: rev_induct)
  case Nil
  then show ?case by (simp add: set_properties_def)
next
  case (snoc x S)
  obtain k v where "x = (k, v)" by (cases x)
  with snoc show ?case by (simp add: set_properties_def)
qed

lemma clear_removed_lookup:
  "clear_removed S previous st p =
     (if p \<in> css_property ` (set previous - set (Object_keys S)) then [] else st p)"
proof (induction previous rule: rev_induct)
  case Nil
  then show ?case by (simp add: clear_removed_def)
next
  case (snoc k previous)
  then show ?case by (auto simp: clear_removed_def)
qed

lemma map_of_normalised_None:
  "map_of (rev (map (\<lambda>(k, v). (css_property k, v)) S)) p = None
     \<longleftrightarrow> p \<notin> css_property ` set (Object_keys S)"
  by (force simp: map_of_eq_None_iff Object_keys_def image_iff)

lemma map_of_normalised_agree:
  assumes "(k, v) \<in> set S"
    and "\<forall>(k', v') \<in> set S. css_property k' = css_property k \<longrightarrow> v' = v"
  shows "map_of (rev (map (\<lambda>(k, v). (css_property k, v)) S)) (css_property k) = Some v"
proof -
  let ?N = "rev (map (\<lambda>(k, v). (css_property k, v)) S)"
  from assms(1) have "css_property k \<in> fst ` set ?N" by force
  then obtain w where w: "map_of ?N (css_property k) = Some w"
    by (cases "map_of ?N (css_property k)") (auto simp: map_of_eq_None_iff)
  then have "(css_property k, w) \<in> set ?N" by (rule map_of_SomeD)
  then obtain k' where "(k', w) \<in> set S" "css_property k' = css_property k" by auto
  with assms(2) have "w = v" by blast
  with w show ?thesis by simp
qed

lemma apply_style_lookup:
  "apply_style S previous st p =
     (case map_of (rev (map (\<lambda>(k, v). (css_property k, v)) S)) p of
        None \<Rightarrow> if p \<in> css_property ` (set previous - set (Object_keys S)) then [] else st p
      | Some v \<Rightarrow> v)"
  by (simp add: apply_style_def set_properties_lookup clear_removed_lookup split: option.split)

lemma render_twice_bindable:
  "bindable site \<Longrightarrow>
     render_twice site S S' st =
       Inr (Bound (Object_keys S'), apply_style S' (Object_keys S) (apply_style S [] st))"
  by (simp add: render_twice_def)


lemma css_property_more:
  "css_property ''height'' = ''height''"
  "css_property ''color'' = ''color''"
  by (simp_all add: css_property_def is_upper_def to_lower_def)

text \<open>
  C7 (as amended). On a site where the directive may be bound, rendering S and then S'
  succeeds, and afterwards: every key of S' shows its value in S', provided the keys of S'
  that name the same CSS property carry the same value; every key of S whose CSS property
  no key of S' names shows the empty string; every CSS property that no key of S or of S'
  names is as it was before, static declarations included; in particular after the empty
  map every key of S shows the empty string.
\<close>

theorem style_update:
  assumes "bindable site"
  shows "\<exists>st2.
      render_twice site S S' st = Inr (Bound (Object_keys S'), st2) \<and>
      (\<forall>(k, v) \<in> set S'.
         (\<forall>(k', v') \<in> set S'. css_property k' = css_property k \<longrightarrow> v' = v) \<longrightarrow>
         style_get st2 k = v) \<and>
      (\<forall>k \<in> set (Object_keys S).
         css_property k \<notin> css_property ` set (Object_keys S') \<longrightarrow> style_get st2 k = []) \<and>
      (\<forall>p. p \<notin> css_property ` set (Object_keys S) \<longrightarrow>
           p \<notin> css_property ` set (Object_keys S') \<longrightarrow> st2 p = st p) \<and>
      (S' = [] \<longrightarrow> (\<forall>k \<in> set (Object_keys S). style_get st2 k = []))"
proof -
  let ?N = "\<lambda>S. rev (map (\<lambda>(k, v). (css_property k, v)) S)"
  define st1 where "st1 = apply_style S [] st"
  define st2 where "st2 = apply_style S' (Object_keys S) st1"
  have r: "render_twice site S S' st = Inr (Bound (Object_keys S'), st2)"
    using assms by (simp add: render_twice_bindable st1_def st2_def)
  have a: "style_get st2 k = v"
    if "(k, v) \<in> set S'"
      and "\<forall>(k', v') \<in> set S'. css_property k' = css_property k \<longrightarrow> v' = v" for k v
    using map_of_normalised_agree [OF that]
    by (simp add: style_get_def st2_def apply_style_lookup)
  have b: "style_get st2 k = []"
    if "k \<in> set (Object_keys S)" and "css_property k \<notin> css_property ` set (Object_keys S')" for k
  proof -
    from that(2) have "map_of (?N S') (css_property k) = None"
      by (simp only: map_of_normalised_None not_False_eq_True)
    moreover from that have "css_property k \<in> css_property ` (set (Object_keys S) - set (Object_keys S'))"
      by blast
    ultimately show ?thesis
      by (simp add: style_get_def st2_def apply_style_lookup)
  qed
  have c: "st2 p = st p"
    if "p \<notin> css_property ` set (Object_keys S)" and "p \<notin> css_property ` set (Object_keys S')" for p
  proof -
    from that have n: "map_of (?N S') p = None" "map_of (?N S) p = None"
      by (simp_all only: map_of_normalised_None not_False_eq_True)
    from that(1) have "p \<notin> css_property ` (set (Object_keys S) - set (Object_keys S'))"
      by blast
    with n show ?thesis
      by (simp add: st2_def st1_def apply_style_lookup)
  qed
  have d: "style_get st2 k = []" if "S' = []" and "k \<in> set (Object_keys S)" for k
    using b [OF that(2)] that(1) by (simp add: Object_keys_def)
  from r a b c d show ?thesis
    by (intro exI [of _ st2]) blast
qed

theorem style_update_witness:
  "bindable style_attribute \<and> bindable static_site \<and>
   rendered_style (render_twice style_attribute first_map second_map no_style) ''marginTop''
     = Some ''4px'' \<and>
   rendered_style (render_twice style_attribute first_map second_map no_style) ''paddingBottom''
     = Some ''8px'' \<and>
   rendered_style (render_twice style_attribute first_map second_map no_style) ''opacity''
     = Some ''0.55'' \<and>
   rendered_style (render_twice static_site first_map [] static_style) ''marginTop'' = Some [] \<and>
   rendered_style (render_twice static_site first_map [] static_style) ''padding-bottom'' = Some [] \<and>
   rendered_style (render_twice static_site first_map [] static_style) ''height'' = Some ''1px'' \<and>
   rendered_style (render_twice static_site first_map [] static_style) ''color'' = Some ''red''"
proof -
  have b1: "bindable style_attribute"
    by (simp add: style_attribute_def dynamic_count_def)
  have b2: "bindable static_site"
    by (simp add: static_site_def dynamic_count_def)
  from style_update [OF b1, of first_map second_map no_style]
  obtain u where u: "render_twice style_attribute first_map second_map no_style
        = Inr (Bound (Object_keys second_map), u)"
    and set: "\<forall>(k, v) \<in> set second_map.
         (\<forall>(k', v') \<in> set second_map. css_property k' = css_property k \<longrightarrow> v' = v) \<longrightarrow>
         style_get u k = v"
    by blast
  from set have s1: "style_get u ''marginTop'' = ''4px''"
    and s2: "style_get u ''paddingBottom'' = ''8px''"
    and s3: "style_get u ''opacity'' = ''0.55''"
    by (simp_all add: second_map_def css_property_examples)
  from style_update [OF b2, of first_map "[] :: style_info" static_style]
  obtain w where w: "render_twice static_site first_map [] static_style
        = Inr (Bound (Object_keys ([] :: style_info)), w)"
    and cleared: "[] = ([] :: style_info) \<longrightarrow> (\<forall>k \<in> set (Object_keys first_map). style_get w k = [])"
    and kept: "\<forall>p. p \<notin> css_property ` set (Object_keys first_map) \<longrightarrow>
           p \<notin> css_property ` set (Object_keys ([] :: style_info)) \<longrightarrow> w p = static_style p"
    by blast
  from cleared have c1: "style_get w ''marginTop'' = []"
    and c2: "style_get w ''padding-bottom'' = []"
    by (simp_all add: first_map_def Object_keys_def)
  from kept have k1: "style_get w ''height'' = ''1px''"
    and k2: "style_get w ''color'' = ''red''"
    by (simp_all add: first_map_def Object_keys_def css_property_examples css_property_more
        style_get_def static_style_def no_style_def)
  show ?thesis
    using b1 b2 s1 s2 s3 c1 c2 k1 k2
    by (simp add: u w rendered_style_def)
qed

text \<open>
  Read literally, with keys compared as strings, the claim fails on the maps of the test
  "adds and updates properties": \<open>padding-bottom\<close> is a key of the first map and not
  of the second, and after the second render the element shows \<open>8px\<close> for it, not the
  empty string, because \<open>paddingBottom\<close> names the same property. And when a map
  holds both spellings with different values, the two keys show one value, so they cannot
  both show their own.
\<close>

theorem style_update_counterexample:
  "''padding-bottom'' \<in> set (Object_keys first_map) \<and>
   ''padding-bottom'' \<notin> set (Object_keys second_map) \<and>
   rendered_style (render_twice style_attribute first_map second_map no_style) ''padding-bottom''
     = Some ''8px'' \<and>
   rendered_style (render_twice style_attribute first_map
       [(''paddingBottom'', ''8px''), (''padding-bottom'', ''4px'')] no_style) ''paddingBottom''
     = rendered_style (render_twice style_attribute first_map
       [(''paddingBottom'', ''8px''), (''padding-bottom'', ''4px'')] no_style) ''padding-bottom''"
  by (simp add: render_twice_def style_attribute_def dynamic_count_def apply_style_def
      set_properties_def clear_removed_def css_property_def is_upper_def to_lower_def
      Object_keys_def first_map_def second_map_def rendered_style_def style_get_def no_style_def)

text \<open>
  C8. Wherever the directive may not be bound, rendering it throws an error, whatever the
  style map; it may not be bound in element content, in an attribute that is not
  \<open>style\<close>, or in an attribute value with two or more dynamic fragments.
\<close>

theorem styleMap_bind_errors:
  "(\<not> bindable site \<longrightarrow>
      (\<exists>msg. render_styleMap site S (Unbound, st) = Inl (Error msg))) \<and>
   \<not> bindable ContentPosition \<and>
   (name \<noteq> ''style'' \<longrightarrow> \<not> bindable (AttributeValue name frs)) \<and>
   (2 \<le> dynamic_count frs \<longrightarrow> \<not> bindable (AttributeValue name frs))"
  by simp

theorem styleMap_bind_errors_witness:
  "(\<exists>msg. render_styleMap (AttributeValue ''id'' [Dynamic]) [] (Unbound, no_style) = Inl (Error msg)) \<and>
   (\<exists>msg. render_styleMap (AttributeValue ''style'' [Dynamic, Static '' '', Dynamic]) []
      (Unbound, no_style) = Inl (Error msg)) \<and>
   (\<exists>msg. render_styleMap ContentPosition [] (Unbound, no_style) = Inl (Error msg)) \<and>
   ''id'' \<noteq> ''style'' \<and> 2 \<le> dynamic_count [Dynamic, Static '' '', Dynamic]"
proof -
  have n: "''id'' \<noteq> ''style''" by simp
  have two: "2 \<le> dynamic_count [Dynamic, Static '' '', Dynamic]"
    by (simp add: dynamic_count_def)
  from styleMap_bind_errors [of "AttributeValue ''id'' [Dynamic]" "[]" no_style "''id''" "[Dynamic]"] n
  have e1: "\<exists>msg. render_styleMap (AttributeValue ''id'' [Dynamic]) [] (Unbound, no_style)
      = Inl (Error msg)"
    by blast
  from styleMap_bind_errors [of "AttributeValue ''style'' [Dynamic, Static '' '', Dynamic]" "[]"
      no_style "''style''" "[Dynamic, Static '' '', Dynamic]"] two
  have e2: "\<exists>msg. render_styleMap (AttributeValue ''style'' [Dynamic, Static '' '', Dynamic]) []
      (Unbound, no_style) = Inl (Error msg)"
    by blast
  from styleMap_bind_errors [of ContentPosition "[]" no_style]
  have e3: "\<exists>msg. render_styleMap ContentPosition [] (Unbound, no_style) = Inl (Error msg)"
    by blast
  from e1 e2 e3 n two show ?thesis by (intro conjI)
qed


section \<open>Running the stages\<close>


























end
